theory Spec2Isabelle
  imports Main
begin

section \<open>The extract-indices-mapping command of manage.py\<close>

text \<open>
  This theory embeds the command \<^verbatim>\<open>extract_indices_mapping\<close> of \<^verbatim>\<open>manage.py\<close>
  (lines 116 to 260): the classification of sheet names, the clean-up of one sheet's table,
  the loop over its rows that splits newline-delimited cells, the two \<^verbatim>\<open>explode\<close> calls
  and the loop over all sheets.

  Conventions of the embedding.
  \<^item> A Python \<^verbatim>\<open>str\<close> is a \<^typ>\<open>string\<close>; one \<^typ>\<open>char\<close> stands for one code point
    below 256, so the character classes of Python (\<^verbatim>\<open>\d\<close>, \<^verbatim>\<open>\w\<close>, white space) are
    written out for that range.
  \<^item> \<^verbatim>\<open>click.echo\<close> and \<^verbatim>\<open>click.secho\<close> print a line; the model collects the printed
    lines, in order, as values of the type \<open>diag\<close> that hold the data each line is formatted
    from.
  \<^item> \<^verbatim>\<open>raise click.ClickException\<close> and an uncaught exception end the command; the model
    returns \<open>Inl\<close> of an \<open>error\<close>, together with the lines printed until then.
  \<^item> The table that \<^verbatim>\<open>pd.read_excel\<close> returns is the input: a list of rows whose cells
    are strings or missing (\<^verbatim>\<open>NaN\<close>, here \<open>None\<close>). The columns are named by what
    \<^verbatim>\<open>df.rename\<close> at lines 161 to 165 makes of them: position 0 is \<^verbatim>\<open>Empty\<close>, position 1
    is \<^verbatim>\<open>Indent level\<close>, position 8 is \<^verbatim>\<open>Level\<close>. The columns are taken to hold strings
    (the \<^verbatim>\<open>object\<close> dtype of pandas), as \<^verbatim>\<open>.str.strip()\<close> at line 181 and the string
    methods in the loop need.
  \<^item> The assignments \<^verbatim>\<open>row[...] = ...\<close> inside \<^verbatim>\<open>for _, row in df.iterrows()\<close> are taken
    to reach the data frame, which is what the code relies on (the later \<^verbatim>\<open>explode\<close> has
    nothing to do otherwise).
  \<^item> The files written under \<^verbatim>\<open>DEBUG\<close> (lines 141, 142, 186 and 187) are left out.
  \<^item> \<^verbatim>\<open>DataFrame.explode\<close> is the pandas library function; it is written out here as
    pandas documents and implements it: a string or a missing value is one entry, an empty
    list is one missing entry, and with several columns the counts of one row must agree or
    \<^verbatim>\<open>ValueError\<close> is raised.
\<close>

subsection \<open>String operations of Python\<close>

definition startswith :: "string \<Rightarrow> string \<Rightarrow> bool" where
  "startswith s p = (take (length p) s = p)"

text \<open>\<^verbatim>\<open>s.lstrip(chars)\<close>, \<^verbatim>\<open>s.rstrip(chars)\<close> and \<^verbatim>\<open>s.strip(chars)\<close>, the set of characters
  given as a predicate.\<close>

definition lstrip :: "(char \<Rightarrow> bool) \<Rightarrow> string \<Rightarrow> string" where
  "lstrip P s = dropWhile P s"

definition rstrip :: "(char \<Rightarrow> bool) \<Rightarrow> string \<Rightarrow> string" where
  "rstrip P s = rev (dropWhile P (rev s))"

definition strip :: "(char \<Rightarrow> bool) \<Rightarrow> string \<Rightarrow> string" where
  "strip P s = rstrip P (lstrip P s)"

text \<open>\<^verbatim>\<open>s.split(sep)\<close> for a separator of one character: the pieces between the separators,
  empty pieces kept, so the result is never empty.\<close>

fun split :: "char \<Rightarrow> string \<Rightarrow> string list" where
  "split sep [] = [[]]"
| "split sep (c # cs) =
     (if c = sep then [] # split sep cs
      else (case split sep cs of [] \<Rightarrow> [[c]] | x # xs \<Rightarrow> (c # x) # xs))"

text \<open>\<^verbatim>\<open>s.replace('\n\n', '\n')\<close>: the occurrences are replaced from the left, without
  overlap.\<close>

fun replace_nlnl :: "string \<Rightarrow> string" where
  "replace_nlnl (a # b # cs) =
     (if a = CHR 0x0A \<and> b = CHR 0x0A then CHR 0x0A # replace_nlnl cs
      else a # replace_nlnl (b # cs))"
| "replace_nlnl cs = cs"

text \<open>\<^verbatim>\<open>str.isspace\<close>, which \<^verbatim>\<open>s.strip()\<close> uses, below code point 256.\<close>

definition isspace :: "char \<Rightarrow> bool" where
  "isspace c = (c \<in> set [CHR 0x09, CHR 0x0A, CHR 0x0B, CHR 0x0C, CHR 0x0D, CHR 0x1C, CHR 0x1D,
     CHR 0x1E, CHR 0x1F, CHR 0x20, CHR 0x85, CHR 0xA0])"

text \<open>The class \<^verbatim>\<open>\d\<close> of \<^verbatim>\<open>re\<close> on \<^verbatim>\<open>str\<close> patterns: the decimal digits.\<close>

definition isdecimal :: "char \<Rightarrow> bool" where
  "isdecimal c = (c \<in> set ''0123456789'')"

text \<open>The class \<^verbatim>\<open>\w\<close> of \<^verbatim>\<open>re\<close> on \<^verbatim>\<open>str\<close> patterns: \<^verbatim>\<open>str.isalnum\<close> or the underscore.
  Below code point 256 these are the ASCII letters and digits, the underscore, the letters
  of Latin-1 and its superscript digits and fractions.\<close>

definition isword :: "char \<Rightarrow> bool" where
  "isword c = (let n = (of_char c :: nat) in
     (48 \<le> n \<and> n \<le> 57) \<or> (65 \<le> n \<and> n \<le> 90) \<or> (97 \<le> n \<and> n \<le> 122) \<or> n = 95
     \<or> n = 170 \<or> n = 178 \<or> n = 179 \<or> n = 181 \<or> n = 185 \<or> n = 186
     \<or> n = 188 \<or> n = 189 \<or> n = 190
     \<or> (192 \<le> n \<and> n \<le> 214) \<or> (216 \<le> n \<and> n \<le> 246) \<or> (248 \<le> n \<and> n \<le> 255))"

subsection \<open>The regular expressions of the sheet names\<close>

text \<open>
  The three patterns for sheet names use literals, \<^verbatim>\<open>\d\<close>, sequence, alternative, \<^verbatim>\<open>?\<close>,
  \<^verbatim>\<open>*\<close>, groups and \<^verbatim>\<open>$\<close>. \<open>rx_match\<close> is a backtracking matcher as \<^verbatim>\<open>re\<close> is one: it
  returns every way to match a prefix of the string, as the rest of the string with the
  groups captured, the way \<^verbatim>\<open>re\<close> tries first at the head (\<^verbatim>\<open>?\<close> and \<^verbatim>\<open>*\<close> are greedy).
  \<^verbatim>\<open>$\<close> matches at the end of the string and before a newline that ends the string.
\<close>

datatype rx =
    Eps
  | Lit string
  | Digit
  | Seq rx rx
  | Alt rx rx
  | Opt rx
  | Star rx
  | Grp nat rx
  | Eos

type_synonym groups = "(nat \<times> string) list"

text \<open>The iterations of \<^verbatim>\<open>*\<close>. Every iteration consumes at least one character, so
  \<open>length s\<close> iterations are all there can be.\<close>

fun star_loop ::
  "(string \<Rightarrow> groups \<Rightarrow> (string \<times> groups) list) \<Rightarrow> nat \<Rightarrow> string \<Rightarrow> groups
    \<Rightarrow> (string \<times> groups) list" where
  "star_loop m 0 s g = [(s, g)]"
| "star_loop m (Suc k) s g =
     concat (map (\<lambda>(s', g'). if length s' < length s then star_loop m k s' g' else []) (m s g))
     @ [(s, g)]"

primrec rx_match :: "rx \<Rightarrow> string \<Rightarrow> groups \<Rightarrow> (string \<times> groups) list" where
  "rx_match Eps s g = [(s, g)]"
| "rx_match (Lit l) s g = (if startswith s l then [(drop (length l) s, g)] else [])"
| "rx_match Digit s g =
     (case s of [] \<Rightarrow> [] | c # cs \<Rightarrow> if isdecimal c then [(cs, g)] else [])"
| "rx_match (Seq a b) s g = concat (map (\<lambda>(s', g'). rx_match b s' g') (rx_match a s g))"
| "rx_match (Alt a b) s g = rx_match a s g @ rx_match b s g"
| "rx_match (Opt a) s g = rx_match a s g @ [(s, g)]"
| "rx_match (Star a) s g = star_loop (rx_match a) (length s) s g"
| "rx_match (Grp n a) s g =
     map (\<lambda>(s', g'). (s', (n, take (length s - length s') s) # g')) (rx_match a s g)"
| "rx_match Eos s g = (if s = [] \<or> s = [CHR 0x0A] then [(s, g)] else [])"

definition seqs :: "rx list \<Rightarrow> rx" where
  "seqs rs = foldr Seq rs Eps"

text \<open>\<^verbatim>\<open>regex.search(s)\<close> for a pattern that begins with \<^verbatim>\<open>^\<close>: a match can only start at
  position 0. The result is the groups of the first match, \<open>None\<close> without a match.\<close>

definition search :: "rx \<Rightarrow> string \<Rightarrow> groups option" where
  "search r s = (case rx_match r s [] of [] \<Rightarrow> None | (rest, g) # ms \<Rightarrow> Some g)"

text \<open>\<^verbatim>\<open>match.group(n)\<close>, for a group that took part in the match.\<close>

definition match_group :: "groups \<Rightarrow> nat \<Rightarrow> string" where
  "match_group g n = (case map_of g n of None \<Rightarrow> [] | Some x \<Rightarrow> x)"

text \<open>Lines 125 to 136.\<close>

definition ignore_sheets :: "string list" where
  "ignore_sheets =
     [''Annex table 2'', ''eN40 vs F20'', ''Legend'', ''Legend Annex table 2'',
      ''S.F. vs eForms mapping list '']"

text \<open>\<^verbatim>\<open>^F\d\d vs eN\d\d( \(2\))?$\<close> and \<^verbatim>\<open>^SF\d\d vs eForm ?\d\d(,\d\d)*$\<close>\<close>

definition ignore_sheet_regex :: "rx list" where
  "ignore_sheet_regex =
     [seqs [Lit ''F'', Digit, Digit, Lit '' vs eN'', Digit, Digit, Opt (Grp 1 (Lit '' (2)'')), Eos],
      seqs [Lit ''SF'', Digit, Digit, Lit '' vs eForm'', Opt (Lit '' ''), Digit, Digit,
            Star (Grp 1 (seqs [Lit '','', Digit, Digit])), Eos]]"

text \<open>\<^verbatim>\<open>^(?:eForm|eN) ?(\d\d?(?:,\d\d)*) vs S?F(\d\d) ?$\<close>\<close>

definition keep_sheet_regex :: rx where
  "keep_sheet_regex =
     seqs [Alt (Lit ''eForm'') (Lit ''eN''), Opt (Lit '' ''),
           Grp 1 (seqs [Digit, Opt Digit, Star (seqs [Lit '','', Digit, Digit])]),
           Lit '' vs '', Opt (Lit ''S''), Lit ''F'', Grp 2 (seqs [Digit, Digit]),
           Opt (Lit '' ''), Eos]"

subsection \<open>Classification of a sheet name (lines 147 to 155)\<close>

text \<open>
  The three outcomes of lines 147 to 155 for one sheet name: \<^verbatim>\<open>continue\<close>, the
  \<^verbatim>\<open>ClickException\<close> that quotes the name, or the two notice numbers:
  \<^verbatim>\<open>eforms_notice_number\<close> as matched and \<^verbatim>\<open>sf_notice_number\<close> without its leading zeros.
\<close>

datatype classification =
    Ignore
  | Reject string
  | Accept string string

definition is0 :: "char \<Rightarrow> bool" where
  "is0 c = (c = CHR ''0'')"

definition classify :: "string \<Rightarrow> classification" where
  "classify sheet =
     (if sheet \<in> set ignore_sheets \<or> list_ex (\<lambda>regex. search regex sheet \<noteq> None) ignore_sheet_regex
      then Ignore
      else (case search keep_sheet_regex sheet of
              None \<Rightarrow> Reject sheet
            | Some match \<Rightarrow> Accept (match_group match 1) (lstrip is0 (match_group match 2))))"

text \<open>Line 177: the value of the column \<^verbatim>\<open>eformsNotice\<close>, the same list in every row.\<close>

definition eformsNotice_list :: "string \<Rightarrow> string list" where
  "eformsNotice_list eforms_notice_number =
     map (lstrip is0) (split (CHR '','') eforms_notice_number)"

subsection \<open>Tables and rows\<close>

text \<open>
  A row of the table as read and renamed (lines 158 to 165). \<open>None\<close> is a missing cell.
  The columns the command names are fields; \<open>raw_others\<close> holds the cells of the remaining
  columns, in the order of the columns.
\<close>

record raw_row =
  raw_Empty :: "string option"
  raw_Indent_level :: "string option"
  raw_ID :: "string option"
  raw_Name :: "string option"
  raw_Element :: "string option"
  raw_Level :: "string option"
  raw_others :: "string option list"

text \<open>
  A value of a column that \<^verbatim>\<open>explode\<close> works on: a string, a list of strings, or the
  missing value that \<^verbatim>\<open>explode\<close> makes of an empty list.
\<close>

datatype cell = NaN | Str string | Lst "string list"

text \<open>
  A row after line 184. The column \<^verbatim>\<open>Empty\<close> is gone, the two notice columns are there.
  \<^verbatim>\<open>Level\<close> and \<^verbatim>\<open>Element\<close> are strings (\<open>string row\<close>) until the loop over the rows
  replaces them, and cells (\<open>cell row\<close>) from then on.
\<close>

record 'c row =
  Indent_level :: string
  ID :: string
  Name :: string
  Level :: 'c
  Element :: 'c
  others :: "string list"
  eformsNotice :: cell
  sfNotice :: string

text \<open>The row with new values of \<^verbatim>\<open>row['Level']\<close> and \<^verbatim>\<open>row['Element']\<close>, every other column
  as it was.\<close>

definition set_Level_Element :: "'a row \<Rightarrow> 'b \<Rightarrow> 'b \<Rightarrow> 'b row" where
  "set_Level_Element r l e =
     \<lparr>Indent_level = Indent_level r, ID = ID r, Name = Name r, Level = l, Element = e,
      others = others r, eformsNotice = eformsNotice r, sfNotice = sfNotice r\<rparr>"

text \<open>The lines that the command prints while it works: line 201 (with the value of
  \<^verbatim>\<open>Element\<close> in which the newlines are highlighted), line 231 and line 243, each with the
  \<^verbatim>\<open>location\<close> of line 192.\<close>

datatype diag =
    Removed_newline string string
  | Unexpected_newline string string
  | Size_differs string "string list" "string list"

text \<open>What ends the command: line 152 (with the sheet name), line 174, line 254 (with the
  sheet name) and \<^verbatim>\<open>pd.concat\<close> of an empty list at line 260.\<close>

datatype error =
    Unknown_sheet_name string
  | First_column_not_empty
  | Explode_failed string
  | No_objects_to_concatenate

subsection \<open>Clean-up of a sheet's table (lines 167 to 184)\<close>

definition fillna :: "string option \<Rightarrow> string" where
  "fillna c = (case c of None \<Rightarrow> [] | Some s \<Rightarrow> s)"

definition clean_row :: "string \<Rightarrow> string \<Rightarrow> raw_row \<Rightarrow> string row" where
  "clean_row eforms_notice_number sf_notice_number r =
     \<lparr>Indent_level = fillna (raw_Indent_level r),
      ID = fillna (raw_ID r),
      Name = fillna (map_option (strip isspace) (raw_Name r)),
      Level = fillna (raw_Level r),
      Element = fillna (raw_Element r),
      others = map fillna (raw_others r),
      eformsNotice = Lst (eformsNotice_list eforms_notice_number),
      sfNotice = sf_notice_number\<rparr>"

text \<open>Line 168 keeps the rows with a \<^verbatim>\<open>Level\<close>; lines 171 to 174 then look at the column
  \<^verbatim>\<open>Empty\<close> of the rows that are left.\<close>

definition clean_table :: "string \<Rightarrow> string \<Rightarrow> raw_row list \<Rightarrow> error + string row list" where
  "clean_table eforms_notice_number sf_notice_number df0 =
     (let df = filter (\<lambda>r. raw_Level r \<noteq> None) df0
      in if list_all (\<lambda>r. raw_Empty r = None) df
         then Inr (map (clean_row eforms_notice_number sf_notice_number) df)
         else Inl First_column_not_empty)"

subsection \<open>The loop over the rows (lines 191 to 249)\<close>

definition location :: "string \<Rightarrow> string \<Rightarrow> string \<Rightarrow> string" where
  "location eforms_notice_number sf_notice_number ident =
     ''eForm'' @ eforms_notice_number @ '' - SF'' @ sf_notice_number @ '': '' @ ident @ '': ''"

text \<open>\<^verbatim>\<open>\b\<close> between the text \<open>w\<close> just matched and the rest of the string: one side is a
  word character and the other is not.\<close>

definition word_boundary :: "string \<Rightarrow> string \<Rightarrow> bool" where
  "word_boundary w rest =
     ((w \<noteq> [] \<and> isword (last w)) \<noteq> (case rest of [] \<Rightarrow> False | c # cs \<Rightarrow> isword c))"

text \<open>The lookahead of \<^verbatim>\<open>replace_newlines\<close> (line 138) on the text after a newline:
  \<^verbatim>\<open>(?=\(|(2009|Title III|and|requirements|subcontractor|will)\b)\<close>\<close>

definition lookahead :: "string \<Rightarrow> bool" where
  "lookahead rest =
     (startswith rest ''(''
      \<or> list_ex (\<lambda>w. startswith rest w \<and> word_boundary w (drop (length w) rest))
           [''2009'', ''Title III'', ''and'', ''requirements'', ''subcontractor'', ''will''])"

fun replace_newlines_search :: "string \<Rightarrow> bool" where
  "replace_newlines_search [] = False"
| "replace_newlines_search (c # cs) =
     ((c = CHR 0x0A \<and> lookahead cs) \<or> replace_newlines_search cs)"

text \<open>\<^verbatim>\<open>replace_newlines.sub(' ', s)\<close>\<close>

fun replace_newlines_sub :: "string \<Rightarrow> string" where
  "replace_newlines_sub [] = []"
| "replace_newlines_sub (c # cs) =
     (if c = CHR 0x0A \<and> lookahead cs then CHR '' '' else c) # replace_newlines_sub cs"

text \<open>Lines 195 to 202: the new value of \<^verbatim>\<open>row['Element']\<close> and the line printed.\<close>

definition remove_spurious :: "string \<Rightarrow> string \<Rightarrow> string \<times> diag list" where
  "remove_spurious loc element0 =
     (let element = replace_nlnl element0
      in if replace_newlines_search element
         then (replace_newlines_sub element, [Removed_newline loc element])
         else (element, []))"

definition nl_count_is_2 :: "string \<Rightarrow> bool" where
  "nl_count_is_2 element = (length (split (CHR 0x0A) element) = 2)"

text \<open>Lines 220 to 226: the text that \<^verbatim>\<open>dedent\<close> returns, five lines that each end with a
  newline.\<close>

definition BT_750_Element :: string where
  "BT_750_Element =
     ''Information and formalities necessary for evaluating if the requirements are met:\<newline>''
     @ ''Information and formalities necessary for evaluating if the requirements are met:\<newline>''
     @ ''Minimum level(s) of standards possibly required: (if applicable)\<newline>''
     @ ''Information and formalities necessary for evaluating if the requirements are met:\<newline>''
     @ ''Minimum level(s) of standards possibly required: (if applicable)\<newline>''"

text \<open>Lines 205 to 226: the new values of \<^verbatim>\<open>row['Level']\<close> and \<^verbatim>\<open>row['Element']\<close>.\<close>

definition hardcode_corrections ::
  "string \<Rightarrow> string \<Rightarrow> string \<Rightarrow> string \<Rightarrow> string \<Rightarrow> string \<times> string" where
  "hardcode_corrections eforms_notice_number sf_notice_number ident level element =
     (if eforms_notice_number = ''15'' \<and> sf_notice_number = ''7'' \<and> ident = ''BT-18''
         \<and> level = ''I.3.4.1.1'' \<and> nl_count_is_2 element
      then (''I.3.4.1.1\<newline>I.3.4.1.2'', element)
      else if eforms_notice_number = ''18'' \<and> sf_notice_number = ''17'' \<and> ident = ''BT-750''
         \<and> level = ''III.2.1.1.1\<newline>III.2.2.2\<newline>III.2.2.3\<newline>III.2.3.1.1\<newline>III.2.3.1.2''
         \<and> nl_count_is_2 element
      then (level, BT_750_Element)
      else (level, element))"

definition isnl :: "char \<Rightarrow> bool" where
  "isnl c = (c = CHR 0x0A)"

text \<open>Line 236: \<^verbatim>\<open>row[column].strip("\n").split("\n")\<close>\<close>

definition split_lines :: "string \<Rightarrow> string list" where
  "split_lines s = split (CHR 0x0A) (strip isnl s)"

text \<open>Lines 239 to 241. \<^verbatim>\<open>row['Element'] *= length\<close> on a list puts \<^verbatim>\<open>length\<close> copies of
  the whole list one after the other.\<close>

definition repeat_Element :: "string list \<Rightarrow> string list \<Rightarrow> string list" where
  "repeat_Element levels elements =
     (if length levels > length elements then concat (replicate (length levels) elements)
      else elements)"

text \<open>Lines 242 and 243.\<close>

definition size_differs :: "string \<Rightarrow> string list \<Rightarrow> string list \<Rightarrow> diag list" where
  "size_differs loc levels elements =
     (if length levels \<noteq> length elements then [Size_differs loc levels elements] else [])"

text \<open>\<^verbatim>\<open>del xs[i]\<close> for an index in range.\<close>

definition del :: "nat \<Rightarrow> 'a list \<Rightarrow> 'a list" where
  "del i xs = take i xs @ drop (Suc i) xs"

text \<open>
  Lines 246 to 249. \<^verbatim>\<open>zip\<close> reads the two lists through one position each, which moves on
  by one in every round whatever the body deleted, and \<^verbatim>\<open>enumerate\<close> counts the rounds: in
  round \<open>i\<close> the loop looks at position \<open>i\<close> of the lists as they are then, and it ends when
  \<open>i\<close> is beyond the end of one of them.
\<close>

function remove_B :: "nat \<Rightarrow> string list \<Rightarrow> string list \<Rightarrow> string list \<times> string list" where
  "remove_B i levels elements =
     (if i < length levels \<and> i < length elements
      then (if startswith (levels ! i) ''B''
            then remove_B (Suc i) (del i levels) (del i elements)
            else remove_B (Suc i) levels elements)
      else (levels, elements))"
  by pat_completeness auto
termination
  by (relation "measure (\<lambda>(i, levels, elements). length levels - i)") (auto simp: del_def)

text \<open>The body of the loop for one row: the row as the data frame holds it afterwards and
  the lines printed.\<close>

definition process_row :: "string \<Rightarrow> string \<Rightarrow> string row \<Rightarrow> cell row \<times> diag list" where
  "process_row eforms_notice_number sf_notice_number r =
     (let loc = location eforms_notice_number sf_notice_number (ID r);
          (element1, removed) = remove_spurious loc (Element r);
          (level, element) =
             hardcode_corrections eforms_notice_number sf_notice_number (ID r) (Level r) element1
      in if CHR 0x0A \<notin> set level
         then (set_Level_Element r (Str level) (Str element),
               removed @ (if CHR 0x0A \<in> set element then [Unexpected_newline loc element] else []))
         else
           (let levels = split_lines level;
                elements = repeat_Element levels (split_lines element);
                (levels', elements') = remove_B 0 levels elements
            in (set_Level_Element r (Lst levels') (Lst elements'),
                removed @ size_differs loc levels elements)))"

definition process_rows :: "string \<Rightarrow> string \<Rightarrow> string row list \<Rightarrow> cell row list \<times> diag list" where
  "process_rows eforms_notice_number sf_notice_number df =
     (let results = map (process_row eforms_notice_number sf_notice_number) df
      in (map fst results, concat (map snd results)))"

subsection \<open>The two calls of explode (lines 251 to 256)\<close>

text \<open>The number of rows that pandas makes of one cell: \<^verbatim>\<open>mylen\<close> in
  \<^verbatim>\<open>DataFrame.explode\<close>.\<close>

definition mylen :: "cell \<Rightarrow> nat" where
  "mylen c = (case c of Lst xs \<Rightarrow> (if length xs > 0 then length xs else 1) | _ \<Rightarrow> 1)"

definition explode_cell :: "cell \<Rightarrow> cell list" where
  "explode_cell c = (case c of Lst xs \<Rightarrow> (if xs = [] then [NaN] else map Str xs) | _ \<Rightarrow> [c])"

text \<open>\<^verbatim>\<open>df.explode(['Level', 'Element'])\<close> on one row whose counts agree.\<close>

definition explode_row :: "cell row \<Rightarrow> cell row list" where
  "explode_row r =
     map (\<lambda>(l, e). r\<lparr>Level := l, Element := e\<rparr>)
       (zip (explode_cell (Level r)) (explode_cell (Element r)))"

text \<open>Line 252: \<^verbatim>\<open>ValueError\<close> (here \<open>None\<close>) when the counts of some row differ.\<close>

definition explode_Level_Element :: "cell row list \<Rightarrow> cell row list option" where
  "explode_Level_Element df =
     (if list_all (\<lambda>r. mylen (Level r) = mylen (Element r)) df
      then Some (concat (map explode_row df))
      else None)"

text \<open>Line 256: \<^verbatim>\<open>df.explode('eformsNotice')\<close>.\<close>

definition explode_eformsNotice_row :: "cell row \<Rightarrow> cell row list" where
  "explode_eformsNotice_row r = map (\<lambda>n. r\<lparr>eformsNotice := n\<rparr>) (explode_cell (eformsNotice r))"

definition explode_eformsNotice :: "cell row list \<Rightarrow> cell row list" where
  "explode_eformsNotice df = concat (map explode_eformsNotice_row df)"

subsection \<open>One sheet and all sheets (lines 144 to 260)\<close>

text \<open>Lines 167 to 256 for an accepted sheet: the lines printed and either the error that
  ends the command or the data frame appended to \<^verbatim>\<open>dfs\<close>.\<close>

definition process_sheet ::
  "string \<Rightarrow> string \<Rightarrow> string \<Rightarrow> raw_row list \<Rightarrow> diag list \<times> (error + cell row list)" where
  "process_sheet sheet eforms_notice_number sf_notice_number df0 =
     (case clean_table eforms_notice_number sf_notice_number df0 of
        Inl e \<Rightarrow> ([], Inl e)
      | Inr df \<Rightarrow>
          (let (df', printed) = process_rows eforms_notice_number sf_notice_number df
           in case explode_Level_Element df' of
                None \<Rightarrow> (printed, Inl (Explode_failed sheet))
              | Some df'' \<Rightarrow> (printed, Inr (explode_eformsNotice df''))))"

text \<open>The loop over the sheets of all workbooks, in their order: a sheet is its name and
  the table that \<^verbatim>\<open>read_excel\<close> returns for it.\<close>

fun sheets_loop :: "(string \<times> raw_row list) list \<Rightarrow> diag list \<times> (error + cell row list list)" where
  "sheets_loop [] = ([], Inr [])"
| "sheets_loop ((sheet, df0) # rest) =
     (case classify sheet of
        Ignore \<Rightarrow> sheets_loop rest
      | Reject name \<Rightarrow> ([], Inl (Unknown_sheet_name name))
      | Accept eforms_notice_number sf_notice_number \<Rightarrow>
          (case process_sheet sheet eforms_notice_number sf_notice_number df0 of
             (printed, Inl e) \<Rightarrow> (printed, Inl e)
           | (printed, Inr df) \<Rightarrow>
               (case sheets_loop rest of
                  (printed', Inl e) \<Rightarrow> (printed @ printed', Inl e)
                | (printed', Inr dfs) \<Rightarrow> (printed @ printed', Inr (df # dfs)))))"

text \<open>The command: the lines printed and either the error or the table written to
  \<^verbatim>\<open>bt-indices-mapping.csv\<close>.\<close>

definition extract_indices_mapping ::
  "(string \<times> raw_row list) list \<Rightarrow> diag list \<times> (error + cell row list)" where
  "extract_indices_mapping sheets =
     (case sheets_loop sheets of
        (printed, Inl e) \<Rightarrow> (printed, Inl e)
      | (printed, Inr dfs) \<Rightarrow>
          (if dfs = [] then (printed, Inl No_objects_to_concatenate)
           else (printed, Inr (concat dfs))))"

text \<open>A sheet at which the loop over the sheets ends the command: its name is rejected,
  or lines 167 to 256 raise for its table.\<close>

definition fatal_sheet :: "string \<times> raw_row list \<Rightarrow> bool" where
  "fatal_sheet x =
     (case classify (fst x) of
        Ignore \<Rightarrow> False
      | Reject name \<Rightarrow> True
      | Accept en sf \<Rightarrow> (case snd (process_sheet (fst x) en sf (snd x)) of Inl e \<Rightarrow> True | Inr df \<Rightarrow> False))"

text \<open>The repetition as the specification words it, for comparison with \<open>repeat_Element\<close>:
  the last element of the Element sequence is repeated until the sequence is as long as the
  Level sequence.\<close>

definition repeat_last_spec :: "string list \<Rightarrow> string list \<Rightarrow> string list" where
  "repeat_last_spec levels elements =
     elements @ replicate (length levels - length elements) (last elements)"

subsection \<open>Example rows\<close>

text \<open>A row of a table as read, the same row after the clean-up, and after the first
  \<^verbatim>\<open>explode\<close>; the concrete instances below vary them.\<close>

definition example_raw_row :: raw_row where
  "example_raw_row =
     \<lparr>raw_Empty = None, raw_Indent_level = Some ''+'', raw_ID = Some ''BT-531'',
      raw_Name = Some '' Additional Nature '', raw_Element = Some ''Type of contract'',
      raw_Level = Some ''III.2.1.1.1'', raw_others = [Some ''Code'', None]\<rparr>"

definition example_row :: "string row" where
  "example_row =
     \<lparr>Indent_level = ''+'', ID = ''BT-531'', Name = ''Additional Nature'', Level = ''III.2.1.1.1'',
      Element = ''Type of contract'', others = [''Code'', []],
      eformsNotice = Lst [''15'', ''18''], sfNotice = ''7''\<rparr>"

definition example_placement :: "cell row" where
  "example_placement =
     \<lparr>Indent_level = ''+'', ID = ''BT-531'', Name = ''Additional Nature'',
      Level = Str ''III.2.1.1.1'', Element = Str ''Type of contract'', others = [''Code'', []],
      eformsNotice = Lst [''15'', ''18''], sfNotice = ''7''\<rparr>"

section \<open>Properties\<close>

subsection \<open>The matcher\<close>

text \<open>The iterations that \<open>rx_match\<close> allows a \<^verbatim>\<open>*\<close> are enough: more of them give the same
  matches.\<close>

lemma star_loop_fuel:
  "length s \<le> k \<Longrightarrow> star_loop m k s g = star_loop m (length s) s g"
proof (induction k arbitrary: s g rule: less_induct)
  case (less k)
  show ?case
  proof (cases k)
    case 0
    with less.prems show ?thesis by simp
  next
    case (Suc k')
    have step: "star_loop m j s' g' = star_loop m (length s') s' g'"
      if "j \<le> k'" and "length s' \<le> j" for j s' g'
      using less.IH [of j s' g'] that Suc by simp
    show ?thesis
    proof (cases "length s")
      case 0
      then have "s = []" by simp
      then show ?thesis using Suc by (simp add: split_def)
    next
      case n: (Suc n)
      from less.prems n Suc have nk: "n \<le> k'" by simp
      have E: "(\<lambda>x. if length (fst x) < length s then star_loop m k' (fst x) (snd x) else [])
          = (\<lambda>x. if length (fst x) < length s then star_loop m n (fst x) (snd x) else [])"
      proof
        fix x
        show "(if length (fst x) < length s then star_loop m k' (fst x) (snd x) else [])
            = (if length (fst x) < length s then star_loop m n (fst x) (snd x) else [])"
        proof (cases "length (fst x) < length s")
          case True
          with n have l: "length (fst x) \<le> n" by simp
          from step [of k' "fst x" "snd x"] step [of n "fst x" "snd x"] l nk True
          show ?thesis by simp
        next
          case False
          then show ?thesis by simp
        qed
      qed
      have "star_loop m (Suc k') s g
          = concat (map (\<lambda>x. if length (fst x) < length s then star_loop m k' (fst x) (snd x) else [])
              (m s g)) @ [(s, g)]"
        by (simp add: split_def)
      also have "\<dots> = concat (map (\<lambda>x. if length (fst x) < length s then star_loop m n (fst x) (snd x) else [])
              (m s g)) @ [(s, g)]"
        by (simp only: E)
      also have "\<dots> = star_loop m (Suc n) s g"
        by (simp add: split_def)
      finally show ?thesis by (simp only: Suc n)
    qed
  qed
qed

subsection \<open>Sheet names\<close>





lemma sheets_loop_append:
  "sheets_loop pre = (printed, Inr dfs) \<Longrightarrow>
   sheets_loop (pre @ rest) =
     (case sheets_loop rest of
        (printed', Inl e) \<Rightarrow> (printed @ printed', Inl e)
      | (printed', Inr dfs') \<Rightarrow> (printed @ printed', Inr (dfs @ dfs')))"
proof (induction pre arbitrary: printed dfs)
  case Nil
  then show ?case by (simp split: prod.splits sum.splits)
next
  case (Cons a pre)
  obtain sheet df0 where a: "a = (sheet, df0)" by (cases a)
  show ?case
  proof (cases "classify sheet")
    case Ignore
    with Cons a show ?thesis by simp
  next
    case (Reject name)
    with Cons.prems a show ?thesis by simp
  next
    case (Accept en sf)
    obtain p1 res1 where ps: "process_sheet sheet en sf df0 = (p1, res1)"
      by (cases "process_sheet sheet en sf df0")
    obtain p2 res2 where sl: "sheets_loop pre = (p2, res2)" by (cases "sheets_loop pre")
    from Cons.prems a Accept ps sl obtain df dfs2 where
      r1: "res1 = Inr df" and r2: "res2 = Inr dfs2" and pr: "printed = p1 @ p2" and d: "dfs = df # dfs2"
      by (cases res1; cases res2) simp_all
    from Cons.IH [OF sl [unfolded r2]] a Accept ps r1 pr d show ?thesis
      by (simp split: prod.splits sum.splits)
  qed
qed

lemma sheets_loop_fatal:
  "x \<in> set sheets \<Longrightarrow> fatal_sheet x \<Longrightarrow> \<exists>printed e. sheets_loop sheets = (printed, Inl e)"
proof (induction sheets)
  case Nil
  then show ?case by simp
next
  case (Cons a sheets)
  obtain s d where a: "a = (s, d)" by (cases a)
  show ?case
  proof (cases "x = a")
    case True
    with Cons.prems a show ?thesis
      by (cases "classify s") (auto simp: fatal_sheet_def split: prod.splits sum.splits)
  next
    case False
    with Cons obtain printed e where "sheets_loop sheets = (printed, Inl e)" by auto
    with a show ?thesis
      by (cases "classify s") (simp_all split: prod.splits sum.splits)
  qed
qed

lemma extract_indices_mapping_fatal:
  assumes "x \<in> set sheets" "fatal_sheet x"
  shows "\<exists>printed e. extract_indices_mapping sheets = (printed, Inl e)"
proof -
  from sheets_loop_fatal [OF assms] obtain printed e where "sheets_loop sheets = (printed, Inl e)"
    by blast
  then show ?thesis by (simp add: extract_indices_mapping_def)
qed

lemma classify_Reject:
  assumes "sheet \<notin> set ignore_sheets"
    and "\<not> list_ex (\<lambda>regex. search regex sheet \<noteq> None) ignore_sheet_regex"
    and "search keep_sheet_regex sheet = None"
  shows "classify sheet = Reject sheet"
  using assms unfolding classify_def by simp

text \<open>
  C6. A sheet name that is not in the ignore set, matches no ignore pattern and does not
  match the accept pattern is rejected with an error that holds that very name. The command
  is then aborted and writes no table: the loop over the sheets stops at that sheet with
  this error; wherever the sheet stands in the list of sheets the command ends in an error;
  and when the sheets before it are processed without error, the error of the command is
  the one that names this sheet.
\<close>

theorem unknown_sheet_name_aborts:
  assumes "sheet \<notin> set ignore_sheets"
    and "\<not> list_ex (\<lambda>regex. search regex sheet \<noteq> None) ignore_sheet_regex"
    and "search keep_sheet_regex sheet = None"
  shows "classify sheet = Reject sheet
    \<and> (\<exists>printed. sheets_loop ((sheet, df0) # rest) = (printed, Inl (Unknown_sheet_name sheet)))
    \<and> ((sheet, df0) \<in> set sheets \<longrightarrow> (\<exists>printed e. extract_indices_mapping sheets = (printed, Inl e)))
    \<and> (sheets_loop before = (printed, Inr dfs) \<longrightarrow>
         extract_indices_mapping (before @ (sheet, df0) # rest) = (printed, Inl (Unknown_sheet_name sheet)))"
proof -
  have r: "classify sheet = Reject sheet" by (rule classify_Reject [OF assms])
  have f: "fatal_sheet (sheet, df0)" by (simp add: fatal_sheet_def r)
  have a: "sheets_loop ((sheet, df0) # rest) = ([], Inl (Unknown_sheet_name sheet))"
    by (simp add: r)
  have b: "\<exists>printed e. extract_indices_mapping sheets = (printed, Inl e)"
    if "(sheet, df0) \<in> set sheets"
    using extract_indices_mapping_fatal [OF that f] .
  have c: "extract_indices_mapping (before @ (sheet, df0) # rest) = (printed, Inl (Unknown_sheet_name sheet))"
    if "sheets_loop before = (printed, Inr dfs)"
    unfolding extract_indices_mapping_def sheets_loop_append [OF that] a by simp
  from r a b c show ?thesis by blast
qed

theorem unknown_sheet_name_aborts_witness:
  "classify ''Random Sheet'' = Reject ''Random Sheet''
   \<and> extract_indices_mapping [(''Legend'', []), (''Random Sheet'', [])]
       = ([], Inl (Unknown_sheet_name ''Random Sheet''))"
proof -
  have 1: "''Random Sheet'' \<notin> set ignore_sheets" by code_simp
  have 2: "\<not> list_ex (\<lambda>regex. search regex ''Random Sheet'' \<noteq> None) ignore_sheet_regex" by code_simp
  have 3: "search keep_sheet_regex ''Random Sheet'' = None" by code_simp
  have 4: "sheets_loop [(''Legend'', [])] = ([], Inr [])" by code_simp
  from unknown_sheet_name_aborts [OF 1 2 3, of "[]" "[]" "[]" "[(''Legend'', [])]" "[]" "[]"] 4
  show ?thesis by simp
qed

text \<open>
  C10. The ignore set and the ignore patterns are looked at before the accept pattern: a
  sheet name in the ignore set or matching an ignore pattern is skipped, whatever the
  accept pattern says about it, and the loop over the sheets goes on as if the sheet were
  not there (no rows, no error, nothing printed). The name \<^verbatim>\<open>eN40 vs F20\<close> matches the
  accept pattern and is ignored.
\<close>

theorem ignore_before_accept:
  assumes "sheet \<in> set ignore_sheets \<or> list_ex (\<lambda>regex. search regex sheet \<noteq> None) ignore_sheet_regex"
  shows "classify sheet = Ignore \<and> sheets_loop ((sheet, df0) # rest) = sheets_loop rest
    \<and> search keep_sheet_regex ''eN40 vs F20'' = Some [(2, ''20''), (1, ''40'')]
    \<and> classify ''eN40 vs F20'' = Ignore"
proof -
  have a: "classify sheet = Ignore" using assms unfolding classify_def by simp
  have b: "search keep_sheet_regex ''eN40 vs F20'' = Some [(2, ''20''), (1, ''40'')]" by code_simp
  have c: "classify ''eN40 vs F20'' = Ignore" by code_simp
  from a b c show ?thesis by simp
qed

theorem ignore_before_accept_witness:
  "classify ''Legend'' = Ignore
   \<and> sheets_loop [(''Legend'', []), (''F02 vs eN16 (2)'', [])] = ([], Inr [])"
proof -
  have 1: "''Legend'' \<in> set ignore_sheets" by code_simp
  have 2: "list_ex (\<lambda>regex. search regex ''F02 vs eN16 (2)'' \<noteq> None) ignore_sheet_regex"
    by code_simp
  from ignore_before_accept [of "''Legend''" "[]" "[(''F02 vs eN16 (2)'', [])]"]
    ignore_before_accept [of "''F02 vs eN16 (2)''" "[]" "[]"] 1 2
  show ?thesis by simp
qed

subsection \<open>Rows with a single level\<close>


lemma split_not_Nil: "split sep s \<noteq> []"
  by (induction s) (simp_all split: list.splits)







lemma set_Level_Element_fields [simp]:
  "Level (set_Level_Element r l e) = l"
  "Element (set_Level_Element r l e) = e"
  "Indent_level (set_Level_Element r l e) = Indent_level r"
  "ID (set_Level_Element r l e) = ID r"
  "Name (set_Level_Element r l e) = Name r"
  "others (set_Level_Element r l e) = others r"
  "eformsNotice (set_Level_Element r l e) = eformsNotice r"
  "sfNotice (set_Level_Element r l e) = sfNotice r"
  by (simp_all add: set_Level_Element_def)







lemma split_lines_not_Nil: "split_lines s \<noteq> []"
  by (simp add: split_lines_def split_not_Nil)

lemma concat_replicate_single: "concat (replicate n [x]) = replicate n x"
  by (induction n) simp_all

lemma length_concat_replicate: "length (concat (replicate n xs)) = n * length xs"
  by (induction n) simp_all

subsection \<open>The clean-up of the table\<close>

text \<open>
  C7 (as amended). The rows without a \<^verbatim>\<open>Level\<close> are removed first. If the column at
  position 0 is empty in every row that has a \<^verbatim>\<open>Level\<close>, the column is dropped and the
  clean-up returns the cleaned rows; if some row that has a \<^verbatim>\<open>Level\<close> has a value at
  position 0, the error of line 174 is raised, nothing is printed and the loop over the
  sheets ends with that error.
\<close>

theorem first_column_after_filter:
  "((\<forall>r \<in> set df0. raw_Level r \<noteq> None \<longrightarrow> raw_Empty r = None) \<longrightarrow>
      clean_table eforms_notice_number sf_notice_number df0
        = Inr (map (clean_row eforms_notice_number sf_notice_number)
                 (filter (\<lambda>r. raw_Level r \<noteq> None) df0)))
   \<and> ((\<exists>r \<in> set df0. raw_Level r \<noteq> None \<and> raw_Empty r \<noteq> None) \<longrightarrow>
      clean_table eforms_notice_number sf_notice_number df0 = Inl First_column_not_empty
      \<and> process_sheet sheet eforms_notice_number sf_notice_number df0
           = ([], Inl First_column_not_empty)
      \<and> (classify sheet = Accept eforms_notice_number sf_notice_number \<longrightarrow>
           sheets_loop ((sheet, df0) # rest) = ([], Inl First_column_not_empty)))"
proof -
  have a: "clean_table eforms_notice_number sf_notice_number df0
        = Inr (map (clean_row eforms_notice_number sf_notice_number)
                 (filter (\<lambda>r. raw_Level r \<noteq> None) df0))"
    if "\<forall>r \<in> set df0. raw_Level r \<noteq> None \<longrightarrow> raw_Empty r = None"
    using that by (simp add: clean_table_def list_all_iff)
  have b: "clean_table eforms_notice_number sf_notice_number df0 = Inl First_column_not_empty"
    if "\<exists>r \<in> set df0. raw_Level r \<noteq> None \<and> raw_Empty r \<noteq> None"
    using that by (auto simp: clean_table_def list_all_iff)
  have c: "process_sheet sheet eforms_notice_number sf_notice_number df0
           = ([], Inl First_column_not_empty)"
    if "\<exists>r \<in> set df0. raw_Level r \<noteq> None \<and> raw_Empty r \<noteq> None"
    by (simp add: process_sheet_def b [OF that])
  have d: "sheets_loop ((sheet, df0) # rest) = ([], Inl First_column_not_empty)"
    if "\<exists>r \<in> set df0. raw_Level r \<noteq> None \<and> raw_Empty r \<noteq> None"
      and "classify sheet = Accept eforms_notice_number sf_notice_number"
    by (simp add: that(2) c [OF that(1)])
  from a b c d show ?thesis by blast
qed

theorem first_column_after_filter_witness:
  "clean_table ''16'' ''2'' [example_raw_row, example_raw_row\<lparr>raw_Level := None\<rparr>]
     = Inr [\<lparr>Indent_level = ''+'', ID = ''BT-531'', Name = ''Additional Nature'',
             Level = ''III.2.1.1.1'', Element = ''Type of contract'', others = [''Code'', []],
             eformsNotice = Lst [''16''], sfNotice = ''2''\<rparr>]
   \<and> sheets_loop [(''eN16 vs F02'', [example_raw_row\<lparr>raw_Empty := Some ''x''\<rparr>])]
     = ([], Inl First_column_not_empty)"
proof -
  have 1: "\<forall>r \<in> set [example_raw_row, example_raw_row\<lparr>raw_Level := None\<rparr>].
             raw_Level r \<noteq> None \<longrightarrow> raw_Empty r = None"
    by (simp add: example_raw_row_def)
  have 2: "\<exists>r \<in> set [example_raw_row\<lparr>raw_Empty := Some ''x''\<rparr>].
             raw_Level r \<noteq> None \<and> raw_Empty r \<noteq> None"
    by (simp add: example_raw_row_def)
  have 3: "classify ''eN16 vs F02'' = Accept ''16'' ''2''" by code_simp
  have 4: "map (clean_row ''16'' ''2'')
             (filter (\<lambda>r. raw_Level r \<noteq> None) [example_raw_row, example_raw_row\<lparr>raw_Level := None\<rparr>])
           = [\<lparr>Indent_level = ''+'', ID = ''BT-531'', Name = ''Additional Nature'',
             Level = ''III.2.1.1.1'', Element = ''Type of contract'', others = [''Code'', []],
             eformsNotice = Lst [''16''], sfNotice = ''2''\<rparr>]"
    by code_simp
  note A = first_column_after_filter [of "[example_raw_row, example_raw_row\<lparr>raw_Level := None\<rparr>]" "''16''" "''2''",
      THEN conjunct1, THEN mp, OF 1, unfolded 4]
  note B = first_column_after_filter [of "[example_raw_row\<lparr>raw_Empty := Some ''x''\<rparr>]" "''16''" "''2''" "''eN16 vs F02''" "[]",
      THEN conjunct2, THEN mp, OF 2]
  from B 3 have "sheets_loop [(''eN16 vs F02'', [example_raw_row\<lparr>raw_Empty := Some ''x''\<rparr>])]
     = ([], Inl First_column_not_empty)" by blast
  with A show ?thesis by (rule conjI)
qed

text \<open>A table whose column at position 0 holds a value in a row without a \<^verbatim>\<open>Level\<close>: no
  error is raised and the table is written.\<close>

theorem first_column_counterexample:
  "extract_indices_mapping
     [(''eN16 vs F02'', [example_raw_row\<lparr>raw_Empty := Some ''x'', raw_Level := None\<rparr>, example_raw_row])]
   = ([], Inr [\<lparr>Indent_level = ''+'', ID = ''BT-531'', Name = ''Additional Nature'',
                Level = Str ''III.2.1.1.1'', Element = Str ''Type of contract'',
                others = [''Code'', []], eformsNotice = Str ''16'', sfNotice = ''2''\<rparr>])"
  by code_simp

subsection \<open>One row per notice number\<close>

lemma explode_cell_eformsNotice_list:
  "explode_cell (Lst (eformsNotice_list en)) = map Str (eformsNotice_list en)"
  by (simp add: explode_cell_def eformsNotice_list_def split_not_Nil)

text \<open>
  C9. A row whose column \<^verbatim>\<open>eformsNotice\<close> holds the list that line 177 makes of the notice
  numbers of the sheet name is replaced, at line 256, by one row per notice number, in the
  order of the list; the list is never empty; every other column of these rows is that of
  the row; and the rows of the data frame are replaced one after the other.
\<close>

theorem explode_eformsNotice_rows:
  assumes "eformsNotice p = Lst (eformsNotice_list eforms_notice_number)"
  shows "explode_eformsNotice_row p
           = map (\<lambda>number. p\<lparr>eformsNotice := Str number\<rparr>) (eformsNotice_list eforms_notice_number)
    \<and> length (explode_eformsNotice_row p) = length (eformsNotice_list eforms_notice_number)
    \<and> length (eformsNotice_list eforms_notice_number) > 0
    \<and> (\<forall>q \<in> set (explode_eformsNotice_row p).
          Indent_level q = Indent_level p \<and> ID q = ID p \<and> Name q = Name p \<and> Level q = Level p
          \<and> Element q = Element p \<and> others q = others p \<and> sfNotice q = sfNotice p)
    \<and> explode_eformsNotice (p # df) = explode_eformsNotice_row p @ explode_eformsNotice df"
proof -
  have a: "explode_eformsNotice_row p
           = map (\<lambda>number. p\<lparr>eformsNotice := Str number\<rparr>) (eformsNotice_list eforms_notice_number)"
    by (simp add: explode_eformsNotice_row_def assms explode_cell_eformsNotice_list comp_def)
  have b: "length (eformsNotice_list eforms_notice_number) > 0"
    by (simp add: eformsNotice_list_def split_not_Nil)
  have c: "\<forall>q \<in> set (explode_eformsNotice_row p).
          Indent_level q = Indent_level p \<and> ID q = ID p \<and> Name q = Name p \<and> Level q = Level p
          \<and> Element q = Element p \<and> others q = others p \<and> sfNotice q = sfNotice p"
    unfolding a by auto
  have d: "explode_eformsNotice (p # df) = explode_eformsNotice_row p @ explode_eformsNotice df"
    by (simp add: explode_eformsNotice_def)
  from a b c d show ?thesis by simp
qed

lemma process_row_unfold:
  assumes "remove_spurious (location en sf (ID r)) (Element r) = (element1, removed)"
    and "hardcode_corrections en sf (ID r) (Level r) element1 = (level, element)"
  shows "process_row en sf r =
     (if CHR 0x0A \<notin> set level
      then (set_Level_Element r (Str level) (Str element),
            removed @ (if CHR 0x0A \<in> set element
                       then [Unexpected_newline (location en sf (ID r)) element] else []))
      else (set_Level_Element r
              (Lst (fst (remove_B 0 (split_lines level)
                     (repeat_Element (split_lines level) (split_lines element)))))
              (Lst (snd (remove_B 0 (split_lines level)
                     (repeat_Element (split_lines level) (split_lines element))))),
            removed @ size_differs (location en sf (ID r)) (split_lines level)
                        (repeat_Element (split_lines level) (split_lines element))))"
  unfolding process_row_def Let_def assms prod.case by (simp only: case_prod_beta)

lemma process_row_eformsNotice:
  "eformsNotice (fst (process_row en sf r)) = eformsNotice r"
proof -
  obtain element1 removed where 1: "remove_spurious (location en sf (ID r)) (Element r) = (element1, removed)"
    by (cases "remove_spurious (location en sf (ID r)) (Element r)")
  obtain level element where 2: "hardcode_corrections en sf (ID r) (Level r) element1 = (level, element)"
    by (cases "hardcode_corrections en sf (ID r) (Level r) element1")
  show ?thesis unfolding process_row_unfold [OF 1 2] by simp
qed

lemma explode_row_eformsNotice:
  "q \<in> set (explode_row r) \<Longrightarrow> eformsNotice q = eformsNotice r"
  by (auto simp: explode_row_def)

lemma rows_before_line_256:
  assumes "clean_table en sf df0 = Inr df"
    and "explode_Level_Element (fst (process_rows en sf df)) = Some placements"
    and "p \<in> set placements"
  shows "eformsNotice p = Lst (eformsNotice_list en)"
proof -
  from assms(1) have 1: "\<forall>r \<in> set df. eformsNotice r = Lst (eformsNotice_list en)"
    by (auto simp: clean_table_def clean_row_def Let_def split: if_splits)
  from assms(2) have "placements = concat (map explode_row (fst (process_rows en sf df)))"
    by (simp add: explode_Level_Element_def split: if_splits)
  with assms(3) obtain r where r: "r \<in> set df" and p: "p \<in> set (explode_row (fst (process_row en sf r)))"
    by (auto simp: process_rows_def Let_def)
  from explode_row_eformsNotice [OF p] process_row_eformsNotice 1 r show ?thesis by simp
qed

theorem explode_eformsNotice_rows_witness:
  "explode_eformsNotice_row example_placement
     = [\<lparr>Indent_level = ''+'', ID = ''BT-531'', Name = ''Additional Nature'',
         Level = Str ''III.2.1.1.1'', Element = Str ''Type of contract'', others = [''Code'', []],
         eformsNotice = Str ''15'', sfNotice = ''7''\<rparr>,
        \<lparr>Indent_level = ''+'', ID = ''BT-531'', Name = ''Additional Nature'',
         Level = Str ''III.2.1.1.1'', Element = Str ''Type of contract'', others = [''Code'', []],
         eformsNotice = Str ''18'', sfNotice = ''7''\<rparr>]"
proof -
  have 1: "eformsNotice_list ''15,18'' = [''15'', ''18'']" by code_simp
  have 2: "eformsNotice example_placement = Lst (eformsNotice_list ''15,18'')"
    by (simp add: 1 example_placement_def)
  from explode_eformsNotice_rows [OF 2, THEN conjunct1] show ?thesis
    by (simp add: 1 example_placement_def)
qed

subsection \<open>Splitting and repetition\<close>

lemma repeat_Element_spec_iff:
  assumes "levels \<noteq> []" and "elements \<noteq> []"
  shows "(repeat_Element levels elements = repeat_last_spec levels elements)
         = (length elements = 1 \<or> length levels \<le> length elements)"
proof (cases "length levels \<le> length elements")
  case True
  then show ?thesis by (simp add: repeat_Element_def repeat_last_spec_def)
next
  case False
  then have lt: "length elements < length levels" by simp
  show ?thesis
  proof (cases "length elements = 1")
    case True
    then obtain x where x: "elements = [x]" by (cases elements) auto
    from lt x obtain n where n: "length levels = Suc n" by (cases levels) auto
    from lt x n show ?thesis
      by (simp add: repeat_Element_def repeat_last_spec_def concat_replicate_single)
  next
    case k: False
    from assms(2) have "length elements \<noteq> 0" by simp
    with k have k2: "2 \<le> length elements" by arith
    have "length (repeat_Element levels elements) = length levels * length elements"
      using lt by (simp add: repeat_Element_def length_concat_replicate)
    moreover have "length (repeat_last_spec levels elements) = length levels"
      using lt by (simp add: repeat_last_spec_def)
    moreover have "length levels * length elements \<noteq> length levels"
    proof -
      have "length levels * 2 \<le> length levels * length elements"
        using k2 by (rule mult_le_mono2)
      moreover have "0 < length levels" using assms(1) by simp
      ultimately show ?thesis by linarith
    qed
    ultimately have "length (repeat_Element levels elements) \<noteq> length (repeat_last_spec levels elements)"
      by simp
    then have "repeat_Element levels elements \<noteq> repeat_last_spec levels elements"
      by auto
    with False k show ?thesis by simp
  qed
qed

lemma repeat_Element_single:
  assumes "levels \<noteq> []" and "length elements = 1"
  shows "repeat_Element levels elements = replicate (length levels) (last elements)
    \<and> length (repeat_Element levels elements) = length levels"
proof -
  from assms(2) obtain x where x: "elements = [x]" by (cases elements) auto
  from assms(1) obtain n where n: "length levels = Suc n" by (cases levels) auto
  show ?thesis
    by (cases n) (simp_all add: x n repeat_Element_def concat_replicate_single)
qed

text \<open>
  C1 (as amended). For a row whose \<^verbatim>\<open>Level\<close> holds a newline, the two cells are stripped of
  leading and trailing newlines and split on newline, and the loop goes on with the Level
  sequence and the Element sequence after repetition. If the Element sequence has fewer
  entries than the Level sequence, the whole Element sequence is repeated as many times as
  there are Level entries; for an Element sequence of one entry this repeats that entry
  until the two lengths are equal. Both sequences are left unchanged when the Element
  sequence has at least as many entries as the Level sequence. The result is what the
  specification describes (the last element repeated up to the Level count) exactly when
  the Element sequence has one entry or is not shorter than the Level sequence.
\<close>

theorem repeat_Element_whole_list:
  assumes "remove_spurious (location eforms_notice_number sf_notice_number (ID r)) (Element r)
             = (element1, removed)"
    and "hardcode_corrections eforms_notice_number sf_notice_number (ID r) (Level r) element1
             = (level, element)"
    and "CHR 0x0A \<in> set level"
    and "levels = split_lines level" and "elements = split_lines element"
  shows "Level (fst (process_row eforms_notice_number sf_notice_number r))
           = Lst (fst (remove_B 0 levels (repeat_Element levels elements)))
    \<and> Element (fst (process_row eforms_notice_number sf_notice_number r))
           = Lst (snd (remove_B 0 levels (repeat_Element levels elements)))
    \<and> (length elements < length levels \<longrightarrow>
          repeat_Element levels elements = concat (replicate (length levels) elements))
    \<and> (length elements = 1 \<longrightarrow>
          repeat_Element levels elements = replicate (length levels) (last elements)
          \<and> length (repeat_Element levels elements) = length levels)
    \<and> (length levels \<le> length elements \<longrightarrow> repeat_Element levels elements = elements)
    \<and> ((repeat_Element levels elements = repeat_last_spec levels elements)
          = (length elements = 1 \<or> length levels \<le> length elements))"
proof -
  have ne: "levels \<noteq> []" "elements \<noteq> []"
    using assms(4,5) split_lines_not_Nil by simp_all
  have a: "Level (fst (process_row eforms_notice_number sf_notice_number r))
           = Lst (fst (remove_B 0 levels (repeat_Element levels elements)))"
    unfolding process_row_unfold [OF assms(1,2)] using assms(3,4,5) by simp
  have b: "Element (fst (process_row eforms_notice_number sf_notice_number r))
           = Lst (snd (remove_B 0 levels (repeat_Element levels elements)))"
    unfolding process_row_unfold [OF assms(1,2)] using assms(3,4,5) by simp
  have c: "repeat_Element levels elements = concat (replicate (length levels) elements)"
    if "length elements < length levels"
    using that by (simp add: repeat_Element_def)
  have d: "repeat_Element levels elements = elements" if "length levels \<le> length elements"
    using that by (simp add: repeat_Element_def)
  from a b c d repeat_Element_single [OF ne(1)] repeat_Element_spec_iff [OF ne]
  show ?thesis by blast
qed

theorem repeat_Element_whole_list_witness:
  "Level (fst (process_row ''16'' ''2''
       (example_row\<lparr>Level := ''\<newline>III.2.1.1.1\<newline>III.2.1.1.2\<newline>''\<rparr>)))
     = Lst [''III.2.1.1.1'', ''III.2.1.1.2'']
   \<and> Element (fst (process_row ''16'' ''2''
       (example_row\<lparr>Level := ''\<newline>III.2.1.1.1\<newline>III.2.1.1.2\<newline>''\<rparr>)))
     = Lst [''Type of contract'', ''Type of contract'']
   \<and> repeat_Element [''III.2.1.1.1'', ''III.2.1.1.2''] [''Type of contract'']
     = [''Type of contract'', ''Type of contract'']"
proof -
  have 1: "remove_spurious (location ''16'' ''2''
              (ID (example_row\<lparr>Level := ''\<newline>III.2.1.1.1\<newline>III.2.1.1.2\<newline>''\<rparr>)))
              (Element (example_row\<lparr>Level := ''\<newline>III.2.1.1.1\<newline>III.2.1.1.2\<newline>''\<rparr>))
           = (''Type of contract'', [])"
    by code_simp
  have 2: "hardcode_corrections ''16'' ''2''
              (ID (example_row\<lparr>Level := ''\<newline>III.2.1.1.1\<newline>III.2.1.1.2\<newline>''\<rparr>))
              (Level (example_row\<lparr>Level := ''\<newline>III.2.1.1.1\<newline>III.2.1.1.2\<newline>''\<rparr>))
              ''Type of contract''
           = (''\<newline>III.2.1.1.1\<newline>III.2.1.1.2\<newline>'', ''Type of contract'')"
    by code_simp
  have 3: "CHR 0x0A \<in> set ''\<newline>III.2.1.1.1\<newline>III.2.1.1.2\<newline>''" by simp
  have 4: "[''III.2.1.1.1'', ''III.2.1.1.2''] = split_lines ''\<newline>III.2.1.1.1\<newline>III.2.1.1.2\<newline>''"
    by code_simp
  have 5: "[''Type of contract''] = split_lines ''Type of contract''" by code_simp
  have 6: "remove_B 0 [''III.2.1.1.1'', ''III.2.1.1.2''] [''Type of contract'', ''Type of contract'']
           = ([''III.2.1.1.1'', ''III.2.1.1.2''], [''Type of contract'', ''Type of contract''])"
    by code_simp
  have 7: "replicate (length [''III.2.1.1.1'', ''III.2.1.1.2'']) (last [''Type of contract''])
           = [''Type of contract'', ''Type of contract'']"
    by code_simp
  note c = repeat_Element_whole_list [OF 1 2 3 4 5]
  have 8: "repeat_Element [''III.2.1.1.1'', ''III.2.1.1.2''] [''Type of contract'']
           = [''Type of contract'', ''Type of contract'']"
    using c [THEN conjunct2, THEN conjunct2, THEN conjunct2, THEN conjunct1] unfolding 7 by simp
  from c [THEN conjunct1] c [THEN conjunct2, THEN conjunct1] 8
  show ?thesis by (simp only: 6 fst_conv snd_conv simp_thms)
qed

text \<open>Three levels and two element lines: the code makes six element entries of them, where
  repeating the last element would make three.\<close>

theorem repeat_Element_counterexample:
  "repeat_Element (split_lines ''III.2.1\<newline>III.2.2\<newline>III.2.3'') (split_lines ''x\<newline>y'')
     = [''x'', ''y'', ''x'', ''y'', ''x'', ''y'']
   \<and> repeat_last_spec (split_lines ''III.2.1\<newline>III.2.2\<newline>III.2.3'') (split_lines ''x\<newline>y'')
     = [''x'', ''y'', ''y'']
   \<and> Element (fst (process_row ''16'' ''2''
        (example_row\<lparr>Level := ''III.2.1\<newline>III.2.2\<newline>III.2.3'', Element := ''x\<newline>y''\<rparr>)))
     = Lst [''x'', ''y'', ''x'', ''y'', ''x'', ''y'']"
  by code_simp

subsection \<open>Sequences of different lengths\<close>








subsection \<open>Removal of the B levels\<close>

text \<open>
  C2 (the code at a failing input). The loop of lines 246 to 249 deletes from the lists it
  iterates over, so the entry that follows a deleted one is never looked at. With the levels
  \<^verbatim>\<open>B.4.1\<close>, \<^verbatim>\<open>B.4.2\<close> and \<^verbatim>\<open>III.2.1\<close> the second sub-level stays in the list, and the
  table written holds a row whose \<^verbatim>\<open>Level\<close> is \<^verbatim>\<open>B.4.2\<close>.
\<close>

theorem remove_B_keeps_adjacent:
  "remove_B 0 [''B.4.1'', ''B.4.2'', ''III.2.1'']
      [''Type of contract'', ''Type of contract'', ''Type of contract'']
     = ([''B.4.2'', ''III.2.1''], [''Type of contract'', ''Type of contract''])
   \<and> extract_indices_mapping
     [(''eN16 vs F02'', [example_raw_row\<lparr>raw_Level := Some ''B.4.1\<newline>B.4.2\<newline>III.2.1''\<rparr>])]
   = ([], Inr [\<lparr>Indent_level = ''+'', ID = ''BT-531'', Name = ''Additional Nature'',
                Level = Str ''B.4.2'', Element = Str ''Type of contract'',
                others = [''Code'', []], eformsNotice = Str ''16'', sfNotice = ''2''\<rparr>,
               \<lparr>Indent_level = ''+'', ID = ''BT-531'', Name = ''Additional Nature'',
                Level = Str ''III.2.1'', Element = Str ''Type of contract'',
                others = [''Code'', []], eformsNotice = Str ''16'', sfNotice = ''2''\<rparr>])"
  by code_simp

end
